theory Spec2Isabelle
  imports Main "HOL-Library.Sublist"
begin

section \<open>JavaScript values, objects and errors\<close>

text \<open>
  The entries of a support table and of a raw target descriptor come from JSON data and
  from user options: they are \<open>null\<close>, booleans, numbers or strings. A property that is
  not there reads as \<open>undefined\<close>, which is \<open>None\<close> of a lookup.
\<close>

datatype jsvalue = JNull | JBool bool | JNum int | JStr string

text \<open>JavaScript's truthiness, as \<open>!plugin[environment]\<close> and \<open>if (defaultItems)\<close> test it.\<close>

fun truthy :: "jsvalue \<Rightarrow> bool" where
  "truthy JNull = False"
| "truthy (JBool b) = b"
| "truthy (JNum n) = (n \<noteq> 0)"
| "truthy (JStr s) = (s \<noteq> [])"

fun truthy_opt :: "jsvalue option \<Rightarrow> bool" where
  "truthy_opt None = False"
| "truthy_opt (Some v) = truthy v"

text \<open>
  An object whose property order matters (it is walked with \<open>Object.keys\<close> or
  \<open>for ... in\<close>) is an association list; \<open>obj[k]\<close> is \<open>map_of obj k\<close>. A support
  table is only ever read at a key, so it is a map.
\<close>

type_synonym 'v object = "(string \<times> 'v) list"
type_synonym target_map = "string object"
type_synonym support_table = "string \<rightharpoonup> jsvalue"

definition keys :: "'v object \<Rightarrow> string list" where
  "keys obj = map fst obj"

text \<open>
  What the code throws: \<open>new Error(message)\<close> in \<open>isPluginRequired\<close>, the
  \<open>TypeError\<close> of the semver library on a version it cannot parse, the failure of
  the version normaliser, and the failure of \<open>require\<close> on a module that is not there.
\<close>

datatype error =
    Error string
  | TypeError string
  | InvalidCandidateVersion jsvalue
  | ModuleNotFound string

section \<open>The version comparator and the version normaliser\<close>

text \<open>
  Modelled from the spec: the semver library is an external dependency and is not under
  src/. The spec (section 3) takes a semantic version to be \<open>major.minor.patch\<close>, all
  non-negative integers; this is the grammar modelled here, with numeric identifiers
  without leading zeros. Pre-release and build suffixes are not part of the model.
\<close>

definition is_digit :: "char \<Rightarrow> bool" where
  "is_digit c = (c \<in> set ''0123456789'')"

definition digit_val :: "char \<Rightarrow> nat" where
  "digit_val c = of_char c - 48"

definition nat_of_digits :: "string \<Rightarrow> nat" where
  "nat_of_digits s = foldl (\<lambda>n c. 10 * n + digit_val c) 0 s"

definition numeric_identifier :: "string \<Rightarrow> nat option" where
  "numeric_identifier s =
     (if s \<noteq> [] \<and> list_all is_digit s \<and> (s = ''0'' \<or> hd s \<noteq> CHR ''0'')
      then Some (nat_of_digits s) else None)"

fun split_on :: "char \<Rightarrow> string \<Rightarrow> string list" where
  "split_on d [] = [[]]"
| "split_on d (c # cs) =
     (if c = d then [] # split_on d cs
      else (case split_on d cs of [] \<Rightarrow> [[c]] | w # ws \<Rightarrow> (c # w) # ws))"

type_synonym semver = "nat \<times> nat \<times> nat"

definition parse_semver :: "string \<Rightarrow> semver option" where
  "parse_semver s =
     (case split_on CHR ''.'' s of
        [a, b, c] \<Rightarrow>
          (case (numeric_identifier a, numeric_identifier b, numeric_identifier c) of
             (Some x, Some y, Some z) \<Rightarrow> Some (x, y, z)
           | _ \<Rightarrow> None)
      | _ \<Rightarrow> None)"

text \<open>\<open>semver.valid(v)\<close>: truthy exactly when \<open>v\<close> is a string that parses; \<open>undefined\<close> does not.\<close>

definition semver_valid :: "string option \<Rightarrow> bool" where
  "semver_valid v = (case v of None \<Rightarrow> False | Some s \<Rightarrow> parse_semver s \<noteq> None)"

fun semver_less :: "semver \<Rightarrow> semver \<Rightarrow> bool" where
  "semver_less (a, b, c) (x, y, z) =
     (a < x \<or> (a = x \<and> (b < y \<or> (b = y \<and> c < z))))"

text \<open>\<open>semver.gt(a, b)\<close>: throws a \<open>TypeError\<close> when either side is not a version.\<close>

definition semver_gt :: "string \<Rightarrow> string \<Rightarrow> error + bool" where
  "semver_gt a b =
     (case parse_semver a of
        None \<Rightarrow> Inl (TypeError (''Invalid Version: '' @ a))
      | Some va \<Rightarrow>
          (case parse_semver b of
             None \<Rightarrow> Inl (TypeError (''Invalid Version: '' @ b))
           | Some vb \<Rightarrow> Inr (semver_less vb va)))"

text \<open>The decimal digits of a number, most significant first, and its \<open>toString()\<close>.\<close>

function decimal_digits :: "nat \<Rightarrow> nat list" where
  "decimal_digits n = (if 10 \<le> n then decimal_digits (n div 10) @ [n mod 10] else [n])"
  by pat_completeness auto
termination
  by (relation "measure id") auto

definition number_toString :: "nat \<Rightarrow> string" where
  "number_toString n = map (\<lambda>d. char_of (d + 48)) (decimal_digits n)"

text \<open>
  Modelled from the spec: \<open>semverify\<close> lives in the repository's utils module, which is
  not under src/. By section 4.2 it accepts an already valid semantic version string, or
  a single non-negative integer or numeric string, taken as the major version with minor
  and patch 0, and fails on any other shape.
\<close>

fun semverify :: "jsvalue \<Rightarrow> error + string" where
  "semverify (JStr s) =
     (if semver_valid (Some s) then Inr s
      else if s \<noteq> [] \<and> list_all is_digit s then Inr (s @ ''.0.0'')
      else Inl (InvalidCandidateVersion (JStr s)))"
| "semverify (JNum n) =
     (if 0 \<le> n then Inr (number_toString (nat n) @ ''.0.0'')
      else Inl (InvalidCandidateVersion (JNum n)))"
| "semverify v = Inl (InvalidCandidateVersion v)"

section \<open>The requirement evaluator\<close>

text \<open>
  \<open>Array.prototype.filter\<close> with a callback that may throw: the first exception leaves
  the loop, otherwise the elements whose callback returned true are kept, in order.
\<close>

fun filter_throwing :: "('a \<Rightarrow> error + bool) \<Rightarrow> 'a list \<Rightarrow> error + 'a list" where
  "filter_throwing f [] = Inr []"
| "filter_throwing f (x # xs) =
     (case f x of
        Inl e \<Rightarrow> Inl e
      | Inr b \<Rightarrow>
          (case filter_throwing f xs of
             Inl e \<Rightarrow> Inl e
           | Inr ys \<Rightarrow> Inr (if b then x # ys else ys)))"

text \<open>The template literal of the error message; \<open>undefined\<close> prints as its name.\<close>

definition render :: "string option \<Rightarrow> string" where
  "render v = (case v of None \<Rightarrow> ''undefined'' | Some s \<Rightarrow> s)"

definition invalid_version_message :: "string \<Rightarrow> string option \<Rightarrow> string" where
  "invalid_version_message environment lowestTargetedVersion =
     ''Invalid version passed for target '' @ [CHR 0x22] @ environment @ [CHR 0x22]
     @ '': '' @ [CHR 0x22] @ render lowestTargetedVersion @ [CHR 0x22]
     @ ''. Versions must be in semver format (major.minor.patch)''"

text \<open>
  The callback of the filter in \<open>isPluginRequired\<close> (lines 30 to 50). The test
  \<open>!plugin[environment]\<close> holds for a missing entry and for a falsy one.
\<close>

definition isRequiredForEnvironment ::
  "target_map \<Rightarrow> support_table \<Rightarrow> string \<Rightarrow> error + bool" where
  "isRequiredForEnvironment supportedEnvironments plugin environment =
     (case plugin environment of
        None \<Rightarrow> Inr True
      | Some lowestImplementedVersion \<Rightarrow>
          if \<not> truthy lowestImplementedVersion then Inr True
          else
            let lowestTargetedVersion = map_of supportedEnvironments environment
            in if \<not> semver_valid lowestTargetedVersion
               then Inl (Error (invalid_version_message environment lowestTargetedVersion))
               else
                 (case semverify lowestImplementedVersion of
                    Inl e \<Rightarrow> Inl e
                  | Inr v \<Rightarrow> semver_gt v (render lowestTargetedVersion)))"

definition isPluginRequired :: "target_map \<Rightarrow> support_table \<Rightarrow> error + bool" where
  "isPluginRequired supportedEnvironments plugin =
     (let targetEnvironments = keys supportedEnvironments
      in if length targetEnvironments = 0 then Inr True
         else
           (case filter_throwing (isRequiredForEnvironment supportedEnvironments plugin)
                   targetEnvironments of
              Inl e \<Rightarrow> Inl e
            | Inr isRequiredForEnvironments \<Rightarrow> Inr (length isRequiredForEnvironments > 0)))"

text \<open>
  The pure reading of the comparison, for stating what the evaluator decides: the
  normalised version of a support-table entry, the parsed version of a target, and
  "the normalised entry of \<open>S\<close> at \<open>k\<close> is strictly greater than the target of \<open>T\<close> at \<open>k\<close>".
\<close>

definition normalised :: "jsvalue \<Rightarrow> semver option" where
  "normalised v = (case semverify v of Inl e \<Rightarrow> None | Inr s \<Rightarrow> parse_semver s)"

definition normalisable :: "jsvalue option \<Rightarrow> bool" where
  "normalisable entry = (case entry of None \<Rightarrow> False | Some v \<Rightarrow> normalised v \<noteq> None)"

definition target_version :: "target_map \<Rightarrow> string \<Rightarrow> semver option" where
  "target_version T k = (case map_of T k of None \<Rightarrow> None | Some t \<Rightarrow> parse_semver t)"

definition newer_than_target :: "target_map \<Rightarrow> support_table \<Rightarrow> string \<Rightarrow> bool" where
  "newer_than_target T S k =
     (case S k of
        None \<Rightarrow> False
      | Some v \<Rightarrow>
          (case (normalised v, target_version T k) of
             (Some sv, Some tv) \<Rightarrow> semver_less tv sv
           | _ \<Rightarrow> False))"

section \<open>Sets of names and the item classifier\<close>

text \<open>
  A JavaScript \<open>Set\<close> of strings keeps its members once, in insertion order: a list
  without repetition, \<open>add\<close> appending a member that is not there yet.
\<close>

definition set_add :: "string \<Rightarrow> string list \<Rightarrow> string list" where
  "set_add x s = (if x \<in> set s then s else s @ [x])"

definition set_has :: "string \<Rightarrow> string list \<Rightarrow> bool" where
  "set_has x s = (x \<in> set s)"

text \<open>
  The regular expression \<open>/^(es\d+|web)\./\<close> of line 80: after \<open>es\<close> the digits are
  taken greedily, and since a dot is no digit, backtracking finds nothing more.
\<close>

definition matches_builtin :: "string \<Rightarrow> bool" where
  "matches_builtin opt =
     ((prefix ''es'' opt \<and>
       (let rest = drop 2 opt
        in takeWhile is_digit rest \<noteq> [] \<and> prefix ''.'' (dropWhile is_digit rest)))
      \<or> prefix ''web.'' opt)"

text \<open>
  The pattern in the words of the spec: the name starts with \<open>es\<close>, one or more digits
  and a dot, or with \<open>web.\<close>.
\<close>

definition es_or_web_name :: "string \<Rightarrow> bool" where
  "es_or_web_name n =
     ((\<exists>ds rest. ds \<noteq> [] \<and> list_all is_digit ds \<and> n = ''es'' @ ds @ ''.'' @ rest)
      \<or> (\<exists>rest. n = ''web.'' @ rest))"

record classified =
  all :: "string list"
  plugins :: "string list"
  builtIns :: "string list"

definition classify :: "classified \<Rightarrow> string \<Rightarrow> classified" where
  "classify result opt =
     (if matches_builtin opt
      then result\<lparr>builtIns := set_add opt (builtIns result)\<rparr>
      else result\<lparr>plugins := set_add opt (plugins result)\<rparr>)"

definition transformIncludesAndExcludes :: "string list \<Rightarrow> classified" where
  "transformIncludesAndExcludes opts =
     foldl classify \<lparr>all = opts, plugins = [], builtIns = []\<rparr> opts"

section \<open>The default selector and the filter engine\<close>

text \<open>
  \<open>defaultWebIncludes\<close> is imported from a module that is not under src/, so it is an
  argument here. \<open>null\<close> is \<open>None\<close>.
\<close>

definition getPlatformSpecificDefaultFor ::
  "string list \<Rightarrow> 'v object \<Rightarrow> string list option" where
  "getPlatformSpecificDefaultFor defaultWebIncludes targets =
     (let targetNames = keys targets;
          isAnyTarget = (length targetNames = 0);
          isWebTarget = list_ex (\<lambda>name. name \<noteq> ''node'') targetNames
      in if isAnyTarget \<or> isWebTarget then Some defaultWebIncludes else None)"

type_synonym catalog = "support_table object"

text \<open>
  The \<open>for ... in\<close> loop of \<open>filterItems\<close> (lines 103 to 109) over the entries of the
  catalog, the result set threaded through; \<open>&&\<close> does not call the evaluator for an
  excluded item, and an exception of the evaluator leaves the loop.
\<close>

fun filterItems_catalog ::
  "catalog \<Rightarrow> string list \<Rightarrow> target_map \<Rightarrow> string list \<Rightarrow> error + string list" where
  "filterItems_catalog [] excludes targets result = Inr result"
| "filterItems_catalog ((item, support) # rest) excludes targets result =
     (let excluded = set_has item excludes
      in if excluded then filterItems_catalog rest excludes targets result
         else
           (case isPluginRequired targets support of
              Inl e \<Rightarrow> Inl e
            | Inr required \<Rightarrow>
                filterItems_catalog rest excludes targets
                  (if required then set_add item result else result)))"

definition add_defaults :: "string list \<Rightarrow> string list \<Rightarrow> string list \<Rightarrow> string list" where
  "add_defaults defaultItems excludes result =
     foldl (\<lambda>r item. if \<not> set_has item excludes then set_add item r else r) result defaultItems"

definition add_includes :: "string list \<Rightarrow> string list \<Rightarrow> string list" where
  "add_includes includes result = foldl (\<lambda>r item. set_add item r) result includes"

text \<open>\<open>defaultItems\<close> is \<open>None\<close> when the argument is missing or \<open>null\<close>.\<close>

definition filterItems ::
  "catalog \<Rightarrow> string list \<Rightarrow> string list \<Rightarrow> target_map \<Rightarrow> string list option
   \<Rightarrow> error + string list" where
  "filterItems list includes excludes targets defaultItems =
     (case filterItems_catalog list excludes targets [] of
        Inl e \<Rightarrow> Inl e
      | Inr result \<Rightarrow>
          (let result1 = (case defaultItems of
                            None \<Rightarrow> result
                          | Some items \<Rightarrow> add_defaults items excludes result)
           in Inr (add_includes includes result1)))"

section \<open>The top-level resolution\<close>





text \<open>
  The imports of the module that are not under src/: the two catalogs, the default
  includes, the table of module transformations and the target normaliser; and the
  names \<open>n\<close> for which \<open>require\<close> finds the module \<open>babel-plugin-n\<close>. They are
  arguments of the model.
\<close>

record installation =
  pluginList :: catalog
  builtInsList :: catalog
  defaultWebIncludes :: "string list"
  moduleTransformations :: "string \<rightharpoonup> string"
  getTargets :: "jsvalue object option \<Rightarrow> error + target_map"
  installed :: "string \<Rightarrow> bool"

















section \<open>Properties of the requirement evaluator\<close>

lemma filter_throwing_total:
  "\<forall>x\<in>set xs. f x = Inr (g x) \<Longrightarrow> filter_throwing f xs = Inr (filter g xs)"
  by (induction xs) simp_all

lemma filter_throwing_first_error:
  "\<forall>x\<in>set pre. \<exists>b. f x = Inr b \<Longrightarrow> f k = Inl e \<Longrightarrow>
   filter_throwing f (pre @ k # post) = Inl e"
  by (induction pre) auto

lemma filter_throwing_some_error:
  "k \<in> set xs \<Longrightarrow> f k = Inl e \<Longrightarrow> \<exists>e'. filter_throwing f xs = Inl e'"
proof (induction xs)
  case Nil
  then show ?case by simp
next
  case (Cons x xs)
  show ?case
  proof (cases "f x")
    case (Inl a)
    then show ?thesis by simp
  next
    case (Inr b)
    with Cons show ?thesis by (cases "x = k") auto
  qed
qed

lemma callback_falsy:
  "\<not> truthy_opt (S k) \<Longrightarrow> isRequiredForEnvironment T S k = Inr True"
  by (cases "S k") (simp_all add: isRequiredForEnvironment_def)

lemma callback_invalid_target:
  "truthy_opt (S k) \<Longrightarrow> \<not> semver_valid (map_of T k) \<Longrightarrow>
   isRequiredForEnvironment T S k = Inl (Error (invalid_version_message k (map_of T k)))"
  by (cases "S k") (simp_all add: isRequiredForEnvironment_def)

lemma callback_compare:
  assumes "truthy_opt (S k)" "semver_valid (map_of T k)" "normalisable (S k)"
  shows "isRequiredForEnvironment T S k = Inr (newer_than_target T S k)"
proof -
  from assms(1) obtain v where v: "S k = Some v" "truthy v"
    by (cases "S k") auto
  from assms(2) obtain t tv where t: "map_of T k = Some t" "parse_semver t = Some tv"
    by (auto simp: semver_valid_def split: option.splits)
  from assms(3) v obtain s sv where s: "semverify v = Inr s" "parse_semver s = Some sv"
    by (auto simp: normalisable_def normalised_def split: sum.splits)
  show ?thesis
    using v t s
    by (simp add: isRequiredForEnvironment_def semver_valid_def render_def semver_gt_def
        newer_than_target_def normalised_def target_version_def)
qed

lemma callback_decided:
  assumes "semver_valid (map_of T k)" "truthy_opt (S k) \<longrightarrow> normalisable (S k)"
  shows "isRequiredForEnvironment T S k =
           Inr (\<not> truthy_opt (S k) \<or> newer_than_target T S k)"
proof (cases "truthy_opt (S k)")
  case True
  with assms show ?thesis by (simp add: callback_compare)
next
  case False
  then show ?thesis by (simp add: callback_falsy)
qed

lemma isPluginRequired_decided:
  assumes "T \<noteq> []"
    and "\<forall>k\<in>set (keys T). isRequiredForEnvironment T S k = Inr (g k)"
  shows "isPluginRequired T S = Inr (\<exists>k\<in>set (keys T). g k)"
proof -
  have "filter_throwing (isRequiredForEnvironment T S) (keys T) = Inr (filter g (keys T))"
    using assms(2) by (rule filter_throwing_total)
  moreover have "keys T \<noteq> []"
    using assms(1) by (simp add: keys_def)
  moreover have "(0 < length (filter g (keys T))) = (\<exists>k\<in>set (keys T). g k)"
    by (simp add: filter_empty_conv)
  ultimately show ?thesis
    by (simp add: isPluginRequired_def Let_def)
qed

lemma isPluginRequired_raises:
  assumes "k \<in> set (keys T)" "isRequiredForEnvironment T S k = Inl e"
  shows "\<exists>e'. isPluginRequired T S = Inl e'"
proof -
  have "\<exists>e'. filter_throwing (isRequiredForEnvironment T S) (keys T) = Inl e'"
    using assms by (rule filter_throwing_some_error)
  then obtain e' where "filter_throwing (isRequiredForEnvironment T S) (keys T) = Inl e'" ..
  moreover have "keys T \<noteq> []"
    using assms(1) by (cases "keys T") simp_all
  ultimately show ?thesis
    by (simp add: isPluginRequired_def Let_def)
qed

lemma isPluginRequired_first_error:
  assumes "keys T = pre @ k # post"
    and "\<forall>j\<in>set pre. \<exists>b. isRequiredForEnvironment T S j = Inr b"
    and "isRequiredForEnvironment T S k = Inl e"
  shows "isPluginRequired T S = Inl e"
proof -
  have "filter_throwing (isRequiredForEnvironment T S) (pre @ k # post) = Inl e"
    using assms(2,3) by (rule filter_throwing_first_error)
  then show ?thesis
    using assms(1) by (simp add: isPluginRequired_def Let_def)
qed

lemma sublist_invalid_version_message:
  "sublist k (invalid_version_message k v) \<and> sublist (render v) (invalid_version_message k v)"
proof
  have 1: "invalid_version_message k v =
          (''Invalid version passed for target '' @ [CHR 0x22]) @ k
          @ ([CHR 0x22] @ '': '' @ [CHR 0x22] @ render v @ [CHR 0x22]
             @ ''. Versions must be in semver format (major.minor.patch)'')"
    by (simp only: invalid_version_message_def append_assoc)
  show "sublist k (invalid_version_message k v)"
    by (subst 1) (rule sublist_appendI)
  have 2: "invalid_version_message k v =
          (''Invalid version passed for target '' @ [CHR 0x22] @ k @ [CHR 0x22] @ '': ''
             @ [CHR 0x22]) @ render v
          @ ([CHR 0x22] @ ''. Versions must be in semver format (major.minor.patch)'')"
    by (simp only: invalid_version_message_def append_assoc)
  show "sublist (render v) (invalid_version_message k v)"
    by (subst 2) (rule sublist_appendI)
qed

text \<open>
  C4. With an empty target map the evaluator returns true, whatever the support table
  is (the empty table included).
\<close>

theorem isPluginRequired_empty_targets: "isPluginRequired [] S = Inr True"
  by (simp add: isPluginRequired_def keys_def)

text \<open>
  C1, as the code has it. For a non-empty target map whose values are valid semantic
  versions, and a support table whose truthy entries at the keys of the target map
  normalise to a semantic version, the evaluator returns true exactly when some key of
  the target map has a missing or falsy entry in the support table, or an entry whose
  normalised version is strictly greater than the target; so it returns false when
  every key has a truthy entry that is not greater than its target.
\<close>

theorem isPluginRequired_iff:
  assumes "T \<noteq> []"
    and "\<forall>k\<in>set (keys T). semver_valid (map_of T k)"
    and "\<forall>k\<in>set (keys T). truthy_opt (S k) \<longrightarrow> normalisable (S k)"
  shows "isPluginRequired T S =
           Inr (\<exists>k\<in>set (keys T). \<not> truthy_opt (S k) \<or> newer_than_target T S k)
         \<and> ((\<forall>k\<in>set (keys T). truthy_opt (S k) \<and> \<not> newer_than_target T S k)
              \<longrightarrow> isPluginRequired T S = Inr False)"
proof -
  have "\<forall>k\<in>set (keys T). isRequiredForEnvironment T S k =
          Inr (\<not> truthy_opt (S k) \<or> newer_than_target T S k)"
    using assms(2,3) callback_decided by blast
  with assms(1) have "isPluginRequired T S =
      Inr (\<exists>k\<in>set (keys T). \<not> truthy_opt (S k) \<or> newer_than_target T S k)"
    by (rule isPluginRequired_decided)
  then show ?thesis
    by simp
qed

theorem isPluginRequired_iff_witness:
  "isPluginRequired [(''chrome'', ''55.0.0''), (''node'', ''8.0.0'')]
     [''chrome'' \<mapsto> JStr ''52'', ''node'' \<mapsto> JNum 6] = Inr False"
proof -
  let ?T = "[(''chrome'', ''55.0.0''), (''node'', ''8.0.0'')]"
  let ?S = "[''chrome'' \<mapsto> JStr ''52'', ''node'' \<mapsto> JNum 6]"
  have T: "?T \<noteq> []"
    by simp
  have V: "\<forall>k\<in>set (keys ?T). semver_valid (map_of ?T k)"
    by code_simp
  have N: "\<forall>k\<in>set (keys ?T). truthy_opt (?S k) \<longrightarrow> normalisable (?S k)"
    by code_simp
  have E: "\<forall>k\<in>set (keys ?T). truthy_opt (?S k) \<and> \<not> newer_than_target ?T ?S k"
    by code_simp
  from isPluginRequired_iff [OF T V N] E show ?thesis
    by blast
qed

text \<open>
  Without the restriction on the support table the equivalence fails. The entry \<open>0\<close> is
  there and normalises to \<open>0.0.0\<close>, which is not greater than the target \<open>1.0.0\<close>,
  yet the evaluator returns true, because \<open>0\<close> is falsy. And with an entry that does not
  normalise the evaluator raises, although another key of the target map has no entry.
\<close>

theorem isPluginRequired_iff_counterexample:
  "isPluginRequired [(''chrome'', ''1.0.0'')] [''chrome'' \<mapsto> JNum 0] = Inr True
   \<and> [''chrome'' \<mapsto> JNum 0] ''chrome'' = Some (JNum 0)
   \<and> normalised (JNum 0) = Some (0, 0, 0)
   \<and> \<not> newer_than_target [(''chrome'', ''1.0.0'')] [''chrome'' \<mapsto> JNum 0] ''chrome''
   \<and> isPluginRequired [(''chrome'', ''1.0.0''), (''firefox'', ''1.0.0'')]
         [''chrome'' \<mapsto> JStr ''abc''] = Inl (InvalidCandidateVersion (JStr ''abc''))
   \<and> [''chrome'' \<mapsto> JStr ''abc''] ''firefox'' = None"
proof (intro conjI)
  show "isPluginRequired [(''chrome'', ''1.0.0'')] [''chrome'' \<mapsto> JNum 0] = Inr True"
    by code_simp
  show "[''chrome'' \<mapsto> JNum 0] ''chrome'' = Some (JNum 0)"
    by simp
  show "normalised (JNum 0) = Some (0, 0, 0)"
    by code_simp
  show "\<not> newer_than_target [(''chrome'', ''1.0.0'')] [''chrome'' \<mapsto> JNum 0] ''chrome''"
    by code_simp
  show "isPluginRequired [(''chrome'', ''1.0.0''), (''firefox'', ''1.0.0'')]
          [''chrome'' \<mapsto> JStr ''abc''] = Inl (InvalidCandidateVersion (JStr ''abc''))"
    by code_simp
  show "[''chrome'' \<mapsto> JStr ''abc''] ''firefox'' = None"
    by simp
qed

text \<open>
  C2, as the code has it. The target version of an environment is validated only where
  the support table has a truthy entry. If some environment \<open>k\<close> of the target map has a
  truthy entry in the support table and a target version that is not a valid semantic
  version, the evaluator raises an error and returns no boolean. If moreover every
  environment before \<open>k\<close> has a missing or falsy entry, or a valid target version and an
  entry that normalises, the error is the one of line 40, and its message contains the
  name of the environment and the invalid value.
\<close>

theorem isPluginRequired_invalid_target:
  assumes "keys T = pre @ k # post"
    and "truthy_opt (S k)"
    and "\<not> semver_valid (map_of T k)"
  shows "(\<exists>e. isPluginRequired T S = Inl e)
         \<and> ((\<forall>j\<in>set pre. \<not> truthy_opt (S j)
                \<or> (semver_valid (map_of T j) \<and> normalisable (S j)))
              \<longrightarrow> isPluginRequired T S = Inl (Error (invalid_version_message k (map_of T k))))
         \<and> sublist k (invalid_version_message k (map_of T k))
         \<and> sublist (render (map_of T k)) (invalid_version_message k (map_of T k))"
proof (intro conjI impI)
  have k: "isRequiredForEnvironment T S k = Inl (Error (invalid_version_message k (map_of T k)))"
    using assms(2,3) by (rule callback_invalid_target)
  have "k \<in> set (keys T)"
    using assms(1) by simp
  then show "\<exists>e. isPluginRequired T S = Inl e"
    using k by (rule isPluginRequired_raises)
  show "isPluginRequired T S = Inl (Error (invalid_version_message k (map_of T k)))"
    if pre: "\<forall>j\<in>set pre. \<not> truthy_opt (S j)
               \<or> (semver_valid (map_of T j) \<and> normalisable (S j))"
  proof -
    have "\<forall>j\<in>set pre. \<exists>b. isRequiredForEnvironment T S j = Inr b"
    proof
      fix j
      assume "j \<in> set pre"
      with pre have "\<not> truthy_opt (S j) \<or> (semver_valid (map_of T j) \<and> normalisable (S j))"
        by (rule bspec)
      then have "isRequiredForEnvironment T S j =
                   Inr (\<not> truthy_opt (S j) \<or> newer_than_target T S j)"
        using callback_falsy [of S j T] callback_decided [of T j S] by fastforce
      then show "\<exists>b. isRequiredForEnvironment T S j = Inr b" ..
    qed
    with assms(1) show ?thesis
      using k by (rule isPluginRequired_first_error)
  qed
  show "sublist k (invalid_version_message k (map_of T k))"
    using sublist_invalid_version_message by (rule conjunct1)
  show "sublist (render (map_of T k)) (invalid_version_message k (map_of T k))"
    using sublist_invalid_version_message by (rule conjunct2)
qed

theorem isPluginRequired_invalid_target_witness:
  "isPluginRequired [(''node'', ''8.0.0''), (''chrome'', ''latest'')]
     [''node'' \<mapsto> JStr ''6'', ''chrome'' \<mapsto> JStr ''60'']
   = Inl (Error (invalid_version_message ''chrome'' (Some ''latest'')))"
proof -
  let ?T = "[(''node'', ''8.0.0''), (''chrome'', ''latest'')]"
  let ?S = "[''node'' \<mapsto> JStr ''6'', ''chrome'' \<mapsto> JStr ''60'']"
  have K: "keys ?T = [''node''] @ ''chrome'' # []"
    by (simp add: keys_def)
  have E: "truthy_opt (?S ''chrome'')"
    by simp
  have I: "\<not> semver_valid (map_of ?T ''chrome'')"
    by code_simp
  have P: "\<forall>j\<in>set [''node'']. \<not> truthy_opt (?S j)
             \<or> (semver_valid (map_of ?T j) \<and> normalisable (?S j))"
    by code_simp
  have M: "map_of ?T ''chrome'' = Some ''latest''"
    by simp
  from isPluginRequired_invalid_target
         [of ?T "[''node'']" "''chrome''" "[]" ?S, OF K E I] P
  have "isPluginRequired ?T ?S = Inl (Error (invalid_version_message ''chrome'' (map_of ?T ''chrome'')))"
    by blast
  then show ?thesis
    unfolding M .
qed

text \<open>
  An invalid target version alone does not make the evaluator raise: \<open>latest\<close> is not a
  valid semantic version, and with the empty support table the evaluator returns true.
\<close>

theorem isPluginRequired_invalid_target_counterexample:
  "\<not> semver_valid (Some ''latest'')
   \<and> map_of [(''chrome'', ''latest'')] ''chrome'' = Some ''latest''
   \<and> isPluginRequired [(''chrome'', ''latest'')] Map.empty = Inr True"
proof (intro conjI)
  show "\<not> semver_valid (Some ''latest'')"
    by code_simp
  show "map_of [(''chrome'', ''latest'')] ''chrome'' = Some ''latest''"
    by simp
  show "isPluginRequired [(''chrome'', ''latest'')] Map.empty = Inr True"
    by code_simp
qed

text \<open>
  C10. For an environment whose entry in the support table is missing or falsy the
  callback of the filter returns true whatever the target map holds for it, so the target
  version is not validated there; when this is so for every environment of the target
  map, the evaluator returns true. In particular it returns true, and raises nothing, on
  the target map \<open>{chrome: "latest"}\<close> and the empty support table, although
  \<open>latest\<close> is not a valid semantic version.
\<close>

theorem isPluginRequired_unsupported_not_validated:
  "(\<not> truthy_opt (S k) \<longrightarrow> isRequiredForEnvironment T S k = Inr True)
   \<and> ((\<forall>j\<in>set (keys T). \<not> truthy_opt (S j)) \<longrightarrow> isPluginRequired T S = Inr True)
   \<and> \<not> semver_valid (Some ''latest'')
   \<and> isPluginRequired [(''chrome'', ''latest'')] Map.empty = Inr True"
proof (intro conjI impI)
  show "isRequiredForEnvironment T S k = Inr True" if "\<not> truthy_opt (S k)"
    using that by (rule callback_falsy)
  show "isPluginRequired T S = Inr True" if all: "\<forall>j\<in>set (keys T). \<not> truthy_opt (S j)"
  proof (cases "T = []")
    case True
    then show ?thesis
      by (simp add: isPluginRequired_def keys_def)
  next
    case False
    have "\<forall>j\<in>set (keys T). isRequiredForEnvironment T S j = Inr True"
      using all callback_falsy by blast
    with False have "isPluginRequired T S = Inr (\<exists>j\<in>set (keys T). True)"
      by (rule isPluginRequired_decided)
    moreover have "keys T \<noteq> []"
      using False by (simp add: keys_def)
    ultimately show ?thesis
      by (cases "keys T") auto
  qed
  show "\<not> semver_valid (Some ''latest'')"
    by code_simp
  show "isPluginRequired [(''chrome'', ''latest'')] Map.empty = Inr True"
    by code_simp
qed

theorem isPluginRequired_unsupported_not_validated_witness:
  "isRequiredForEnvironment [(''chrome'', ''latest'')] [''chrome'' \<mapsto> JNum 0] ''chrome'' = Inr True
   \<and> isPluginRequired [(''chrome'', ''latest''), (''node'', ''current'')]
        [''chrome'' \<mapsto> JNum 0] = Inr True"
proof -
  let ?S = "[''chrome'' \<mapsto> JNum 0]"
  have 1: "\<not> truthy_opt (?S ''chrome'')"
    by simp
  have 2: "\<forall>j\<in>set (keys [(''chrome'', ''latest''), (''node'', ''current'')]). \<not> truthy_opt (?S j)"
    by (simp add: keys_def)
  from isPluginRequired_unsupported_not_validated [of ?S "''chrome''" "[(''chrome'', ''latest'')]"] 1
  have a: "isRequiredForEnvironment [(''chrome'', ''latest'')] ?S ''chrome'' = Inr True"
    by blast
  from isPluginRequired_unsupported_not_validated
         [of ?S "''chrome''" "[(''chrome'', ''latest''), (''node'', ''current'')]"] 2
  have b: "isPluginRequired [(''chrome'', ''latest''), (''node'', ''current'')] ?S = Inr True"
    by blast
  from a b show ?thesis ..
qed

section \<open>Properties of the item classifier and the default selector\<close>

lemma set_set_add: "set (set_add x s) = insert x (set s)"
  by (auto simp: set_add_def)

lemma distinct_set_add: "distinct s \<Longrightarrow> distinct (set_add x s)"
  by (simp add: set_add_def)

lemma not_is_digit_dot: "\<not> is_digit CHR ''.''"
  by (simp add: is_digit_def)

lemma takeWhile_digits_dot:
  "list_all is_digit ds \<Longrightarrow> takeWhile is_digit (ds @ CHR ''.'' # rest) = ds"
  by (induction ds) (simp_all add: not_is_digit_dot)

lemma dropWhile_digits_dot:
  "list_all is_digit ds \<Longrightarrow> dropWhile is_digit (ds @ CHR ''.'' # rest) = CHR ''.'' # rest"
  by (induction ds) (simp_all add: not_is_digit_dot)

lemma list_all_takeWhile: "list_all P (takeWhile P xs)"
  by (induction xs) simp_all

lemma matches_builtin_iff: "matches_builtin n = es_or_web_name n"
proof
  assume "matches_builtin n"
  then consider
      (es) "prefix ''es'' n" "takeWhile is_digit (drop 2 n) \<noteq> []"
           "prefix ''.'' (dropWhile is_digit (drop 2 n))"
    | (web) "prefix ''web.'' n"
    by (auto simp: matches_builtin_def Let_def)
  then show "es_or_web_name n"
  proof cases
    case es
    from es(1) obtain r where r: "n = ''es'' @ r"
      by (auto simp: prefix_def)
    from es(3) obtain rest where rest: "dropWhile is_digit (drop 2 n) = ''.'' @ rest"
      by (auto simp: prefix_def)
    have "r = takeWhile is_digit r @ dropWhile is_digit r"
      by simp
    with r rest have "n = ''es'' @ takeWhile is_digit r @ ''.'' @ rest"
      by simp
    moreover have "takeWhile is_digit r \<noteq> []"
      using es(2) r by simp
    moreover have "list_all is_digit (takeWhile is_digit r)"
      by (rule list_all_takeWhile)
    ultimately show ?thesis
      unfolding es_or_web_name_def by blast
  next
    case web
    then show ?thesis
      by (auto simp: es_or_web_name_def prefix_def)
  qed
next
  assume "es_or_web_name n"
  then consider
      (es) ds rest where "ds \<noteq> []" "list_all is_digit ds" "n = ''es'' @ ds @ ''.'' @ rest"
    | (web) rest where "n = ''web.'' @ rest"
    unfolding es_or_web_name_def by blast
  then show "matches_builtin n"
  proof cases
    case es
    have "drop 2 n = ds @ CHR ''.'' # rest"
      using es(3) by simp
    then have "takeWhile is_digit (drop 2 n) = ds"
      and "dropWhile is_digit (drop 2 n) = CHR ''.'' # rest"
      using es(2) by (simp_all add: takeWhile_digits_dot dropWhile_digits_dot)
    moreover have "prefix ''es'' n"
      using es(3) by simp
    ultimately show ?thesis
      using es(1) by (simp add: matches_builtin_def Let_def)
  next
    case web
    then show ?thesis
      by (simp add: matches_builtin_def)
  qed
qed

lemma classify_all: "all (foldl classify r opts) = all r"
  by (induction opts arbitrary: r) (simp_all add: classify_def)

lemma classify_builtIns:
  "set (builtIns (foldl classify r opts)) = set (builtIns r) \<union> {n \<in> set opts. matches_builtin n}"
  by (induction opts arbitrary: r) (auto simp: classify_def set_set_add)

lemma classify_plugins:
  "set (plugins (foldl classify r opts)) = set (plugins r) \<union> {n \<in> set opts. \<not> matches_builtin n}"
  by (induction opts arbitrary: r) (auto simp: classify_def set_set_add)

lemma classify_distinct:
  "distinct (builtIns r) \<Longrightarrow> distinct (plugins r) \<Longrightarrow>
   distinct (builtIns (foldl classify r opts)) \<and> distinct (plugins (foldl classify r opts))"
  by (induction opts arbitrary: r) (simp_all add: classify_def distinct_set_add)

text \<open>
  C7. A name of the input is in \<open>builtIns\<close> exactly when it starts with \<open>es\<close>, one or
  more digits and a dot, or with \<open>web.\<close>; every other name of the input is in
  \<open>plugins\<close>; no name is in both; \<open>all\<close> is the input as it was. On the three names of
  the spec's example the two sets are as the spec gives them.
\<close>

theorem transformIncludesAndExcludes_partition:
  "set (builtIns (transformIncludesAndExcludes opts)) = {n \<in> set opts. es_or_web_name n}
   \<and> set (plugins (transformIncludesAndExcludes opts)) = {n \<in> set opts. \<not> es_or_web_name n}
   \<and> set (builtIns (transformIncludesAndExcludes opts))
       \<inter> set (plugins (transformIncludesAndExcludes opts)) = {}
   \<and> all (transformIncludesAndExcludes opts) = opts
   \<and> builtIns (transformIncludesAndExcludes
         [''es6.promise'', ''transform-arrow-functions'', ''web.timers''])
       = [''es6.promise'', ''web.timers'']
   \<and> plugins (transformIncludesAndExcludes
         [''es6.promise'', ''transform-arrow-functions'', ''web.timers''])
       = [''transform-arrow-functions'']"
proof (intro conjI)
  show b: "set (builtIns (transformIncludesAndExcludes opts)) = {n \<in> set opts. es_or_web_name n}"
    by (simp add: transformIncludesAndExcludes_def classify_builtIns matches_builtin_iff)
  show p: "set (plugins (transformIncludesAndExcludes opts)) = {n \<in> set opts. \<not> es_or_web_name n}"
    by (simp add: transformIncludesAndExcludes_def classify_plugins matches_builtin_iff)
  show "set (builtIns (transformIncludesAndExcludes opts))
          \<inter> set (plugins (transformIncludesAndExcludes opts)) = {}"
    unfolding b p by blast
  show "all (transformIncludesAndExcludes opts) = opts"
    by (simp add: transformIncludesAndExcludes_def classify_all)
  show "builtIns (transformIncludesAndExcludes
          [''es6.promise'', ''transform-arrow-functions'', ''web.timers''])
        = [''es6.promise'', ''web.timers'']"
    by code_simp
  show "plugins (transformIncludesAndExcludes
          [''es6.promise'', ''transform-arrow-functions'', ''web.timers''])
        = [''transform-arrow-functions'']"
    by code_simp
qed

theorem transformIncludesAndExcludes_partition_witness:
  "set (builtIns (transformIncludesAndExcludes [''es2015.x'', ''esx.y'', ''web.timers'', ''webx'']))
     = {''es2015.x'', ''web.timers''}
   \<and> set (plugins (transformIncludesAndExcludes [''es2015.x'', ''esx.y'', ''web.timers'', ''webx'']))
     = {''esx.y'', ''webx''}"
proof -
  let ?opts = "[''es2015.x'', ''esx.y'', ''web.timers'', ''webx'']"
  have m: "es_or_web_name ''es2015.x''" "\<not> es_or_web_name ''esx.y''"
    "es_or_web_name ''web.timers''" "\<not> es_or_web_name ''webx''"
    unfolding matches_builtin_iff [symmetric] by code_simp+
  have 1: "{n \<in> set ?opts. es_or_web_name n} = {''es2015.x'', ''web.timers''}"
    using m by auto
  have 2: "{n \<in> set ?opts. \<not> es_or_web_name n} = {''esx.y'', ''webx''}"
    using m by auto
  from transformIncludesAndExcludes_partition [of ?opts] show ?thesis
    unfolding 1 2 by blast
qed

text \<open>
  C6. The default selector returns the default item set when the target map is empty or
  has a key other than \<open>node\<close>, and \<open>null\<close> exactly when the target map is not empty and
  all its keys are \<open>node\<close>; so it returns the defaults for \<open>{}\<close> and for
  \<open>{node: "8.0.0", chrome: "60.0.0"}\<close>, and \<open>null\<close> for \<open>{node: "8.0.0"}\<close>.
\<close>

theorem getPlatformSpecificDefaultFor_cases:
  "getPlatformSpecificDefaultFor d T
     = (if T = [] \<or> (\<exists>k\<in>set (keys T). k \<noteq> ''node'') then Some d else None)
   \<and> (getPlatformSpecificDefaultFor d T = None
        \<longleftrightarrow> T \<noteq> [] \<and> (\<forall>k\<in>set (keys T). k = ''node''))
   \<and> getPlatformSpecificDefaultFor d ([] :: target_map) = Some d
   \<and> getPlatformSpecificDefaultFor d [(''node'', ''8.0.0'')] = None
   \<and> getPlatformSpecificDefaultFor d [(''node'', ''8.0.0''), (''chrome'', ''60.0.0'')] = Some d"
  by (auto simp: getPlatformSpecificDefaultFor_def keys_def Let_def list_ex_iff)

theorem getPlatformSpecificDefaultFor_cases_witness:
  "getPlatformSpecificDefaultFor [''web.timers''] [(''node'', ''6.0.0''), (''ie'', ''11.0.0'')]
     = Some [''web.timers'']
   \<and> getPlatformSpecificDefaultFor [''web.timers''] [(''node'', ''6.0.0'')] = None"
proof -
  have 1: "[(''node'', ''6.0.0''), (''ie'', ''11.0.0'')] = []
            \<or> (\<exists>k\<in>set (keys [(''node'', ''6.0.0''), (''ie'', ''11.0.0'')]). k \<noteq> ''node'')"
    by (simp add: keys_def)
  have 2: "[(''node'', ''6.0.0'')] \<noteq> [] \<and> (\<forall>k\<in>set (keys [(''node'', ''6.0.0'')]). k = ''node'')"
    by (simp add: keys_def)
  from getPlatformSpecificDefaultFor_cases
         [of "[''web.timers'']" "[(''node'', ''6.0.0''), (''ie'', ''11.0.0'')]"] 1
  have a: "getPlatformSpecificDefaultFor [''web.timers''] [(''node'', ''6.0.0''), (''ie'', ''11.0.0'')]
             = Some [''web.timers'']"
    by presburger
  from getPlatformSpecificDefaultFor_cases [of "[''web.timers'']" "[(''node'', ''6.0.0'')]"] 2
  have b: "getPlatformSpecificDefaultFor [''web.timers''] [(''node'', ''6.0.0'')] = None"
    by blast
  from a b show ?thesis ..
qed

section \<open>Properties of the filter engine\<close>

lemma set_add_includes: "set (add_includes inc r) = set r \<union> set inc"
  unfolding add_includes_def
  by (induction inc arbitrary: r) (auto simp: set_set_add)

lemma set_add_defaults: "set (add_defaults d exc r) = set r \<union> (set d - set exc)"
  unfolding add_defaults_def
  by (induction d arbitrary: r) (auto simp: set_set_add set_has_def)

lemma filterItems_catalog_returns:
  "(\<exists>R. filterItems_catalog C exc T r = Inr R)
   \<longleftrightarrow> (\<forall>(item, sup)\<in>set C. item \<notin> set exc \<longrightarrow> (\<exists>b. isPluginRequired T sup = Inr b))"
proof (induction C arbitrary: r)
  case Nil
  show ?case by simp
next
  case (Cons entry C)
  obtain item sup where entry: "entry = (item, sup)"
    by (cases entry)
  show ?case
  proof (cases "item \<in> set exc")
    case True
    then show ?thesis
      using Cons.IH [of r] by (simp add: entry set_has_def)
  next
    case False
    show ?thesis
    proof (cases "isPluginRequired T sup")
      case (Inl e)
      with False show ?thesis
        by (simp add: entry set_has_def)
    next
      case (Inr b)
      with False show ?thesis
        using Cons.IH [of "if b then set_add item r else r"]
        by (simp add: entry set_has_def)
    qed
  qed
qed

lemma filterItems_catalog_set:
  "filterItems_catalog C exc T r = Inr R \<Longrightarrow>
   set R = set r \<union> {item. \<exists>sup. (item, sup) \<in> set C \<and> item \<notin> set exc
                                \<and> isPluginRequired T sup = Inr True}"
proof (induction C arbitrary: r)
  case Nil
  then show ?case by simp
next
  case (Cons entry C)
  obtain item sup where entry: "entry = (item, sup)"
    by (cases entry)
  show ?case
  proof (cases "item \<in> set exc")
    case True
    with Cons.prems have "filterItems_catalog C exc T r = Inr R"
      by (simp add: entry set_has_def)
    then have "set R = set r \<union> {item. \<exists>sup. (item, sup) \<in> set C \<and> item \<notin> set exc
                                \<and> isPluginRequired T sup = Inr True}"
      by (rule Cons.IH)
    with True show ?thesis
      by (auto simp: entry)
  next
    case False
    with Cons.prems obtain b where b: "isPluginRequired T sup = Inr b"
      and rest: "filterItems_catalog C exc T (if b then set_add item r else r) = Inr R"
      by (auto simp: entry set_has_def split: sum.splits)
    from rest have "set R = set (if b then set_add item r else r)
        \<union> {item. \<exists>sup. (item, sup) \<in> set C \<and> item \<notin> set exc
                    \<and> isPluginRequired T sup = Inr True}"
      by (rule Cons.IH)
    with False b show ?thesis
      by (cases b) (auto simp: entry set_set_add)
  qed
qed

lemma filterItems_returns:
  "(\<exists>R. filterItems C inc exc T d = Inr R)
   \<longleftrightarrow> (\<forall>(item, sup)\<in>set C. item \<notin> set exc \<longrightarrow> (\<exists>b. isPluginRequired T sup = Inr b))"
proof -
  have "(\<exists>R. filterItems C inc exc T d = Inr R) \<longleftrightarrow> (\<exists>R. filterItems_catalog C exc T [] = Inr R)"
    by (cases "filterItems_catalog C exc T []") (simp_all add: filterItems_def)
  then show ?thesis
    by (simp only: filterItems_catalog_returns)
qed

lemma filterItems_set:
  assumes "filterItems C inc exc T d = Inr R"
  shows "set R = {item. \<exists>sup. (item, sup) \<in> set C \<and> item \<notin> set exc
                          \<and> isPluginRequired T sup = Inr True}
                 \<union> (case d of None \<Rightarrow> {} | Some items \<Rightarrow> set items - set exc)
                 \<union> set inc"
proof -
  from assms obtain R0 where R0: "filterItems_catalog C exc T [] = Inr R0"
    and R: "R = add_includes inc (case d of None \<Rightarrow> R0 | Some items \<Rightarrow> add_defaults items exc R0)"
    by (auto simp: filterItems_def split: sum.splits)
  from R0 have "set R0 = {item. \<exists>sup. (item, sup) \<in> set C \<and> item \<notin> set exc
                          \<and> isPluginRequired T sup = Inr True}"
    using filterItems_catalog_set [of C exc T "[]" R0] by simp
  with R show ?thesis
    by (cases d) (simp_all add: set_add_includes set_add_defaults)
qed

text \<open>
  C3, as the code has it. Whenever \<open>filterItems\<close> returns, every member of the include
  set is in the result, whatever the catalog, the exclude set, the target map and the
  defaults are; and it returns exactly when the requirement evaluator raises for no
  catalog entry outside the exclude set.
\<close>

theorem filterItems_include_wins:
  "(\<forall>R. filterItems C inc exc T d = Inr R \<longrightarrow> set inc \<subseteq> set R)
   \<and> ((\<exists>R. filterItems C inc exc T d = Inr R)
        \<longleftrightarrow> (\<forall>(item, sup)\<in>set C. item \<notin> set exc
               \<longrightarrow> (\<exists>b. isPluginRequired T sup = Inr b)))"
proof (intro conjI allI impI)
  fix R
  assume "filterItems C inc exc T d = Inr R"
  then have "set R = {item. \<exists>sup. (item, sup) \<in> set C \<and> item \<notin> set exc
                          \<and> isPluginRequired T sup = Inr True}
                 \<union> (case d of None \<Rightarrow> {} | Some items \<Rightarrow> set items - set exc)
                 \<union> set inc"
    by (rule filterItems_set)
  then show "set inc \<subseteq> set R"
    by blast
next
  show "(\<exists>R. filterItems C inc exc T d = Inr R)
        \<longleftrightarrow> (\<forall>(item, sup)\<in>set C. item \<notin> set exc
               \<longrightarrow> (\<exists>b. isPluginRequired T sup = Inr b))"
    by (rule filterItems_returns)
qed

theorem filterItems_include_wins_witness:
  "filterItems [(''transform-regenerator'', [''chrome'' \<mapsto> JStr ''50''])]
     [''transform-regenerator'', ''my-plugin''] [''transform-regenerator'']
     [(''chrome'', ''55.0.0'')] None
   = Inr [''transform-regenerator'', ''my-plugin'']
   \<and> set [''transform-regenerator'', ''my-plugin'']
       \<subseteq> set [''transform-regenerator'', ''my-plugin'']"
proof -
  have E: "filterItems [(''transform-regenerator'', [''chrome'' \<mapsto> JStr ''50''])]
             [''transform-regenerator'', ''my-plugin''] [''transform-regenerator'']
             [(''chrome'', ''55.0.0'')] None
           = Inr [''transform-regenerator'', ''my-plugin'']"
    by code_simp
  from filterItems_include_wins
         [of "[(''transform-regenerator'', [''chrome'' \<mapsto> JStr ''50''])]"
             "[''transform-regenerator'', ''my-plugin'']" "[''transform-regenerator'']"
             "[(''chrome'', ''55.0.0'')]" None] E
  have "set [''transform-regenerator'', ''my-plugin'']
          \<subseteq> set [''transform-regenerator'', ''my-plugin'']"
    by blast
  with E show ?thesis ..
qed

text \<open>
  \<open>filterItems\<close> does not return for every target map: here the evaluator raises on
  the catalog entry, and no result holds the included name.
\<close>

theorem filterItems_include_wins_counterexample:
  "filterItems [(''transform-async-to-generator'', [''chrome'' \<mapsto> JStr ''60''])]
     [''transform-regenerator''] [] [(''chrome'', ''latest'')] None
   = Inl (Error (invalid_version_message ''chrome'' (Some ''latest'')))"
  by code_simp

text \<open>
  C5, as the code has it. Whenever \<open>filterItems\<close> is given a default set and returns,
  every default item that is not in the exclude set is in the result, whatever the target
  map and the support tables are; the step that adds the defaults leaves out exactly the
  default items of the exclude set; and \<open>filterItems\<close> returns exactly when the
  requirement evaluator raises for no catalog entry outside the exclude set.
\<close>

theorem filterItems_defaults:
  "(\<forall>R. filterItems C inc exc T (Some d) = Inr R
        \<longrightarrow> (\<forall>x\<in>set d. x \<notin> set exc \<longrightarrow> x \<in> set R))
   \<and> set (add_defaults d exc r) = set r \<union> (set d - set exc)
   \<and> ((\<exists>R. filterItems C inc exc T (Some d) = Inr R)
        \<longleftrightarrow> (\<forall>(item, sup)\<in>set C. item \<notin> set exc
               \<longrightarrow> (\<exists>b. isPluginRequired T sup = Inr b)))"
proof (intro conjI allI impI ballI)
  fix R x
  assume "filterItems C inc exc T (Some d) = Inr R"
  then have "set R = {item. \<exists>sup. (item, sup) \<in> set C \<and> item \<notin> set exc
                          \<and> isPluginRequired T sup = Inr True}
                 \<union> (case Some d of None \<Rightarrow> {} | Some items \<Rightarrow> set items - set exc)
                 \<union> set inc"
    by (rule filterItems_set)
  moreover assume "x \<in> set d" "x \<notin> set exc"
  ultimately show "x \<in> set R"
    by simp
next
  show "set (add_defaults d exc r) = set r \<union> (set d - set exc)"
    by (rule set_add_defaults)
next
  show "(\<exists>R. filterItems C inc exc T (Some d) = Inr R)
        \<longleftrightarrow> (\<forall>(item, sup)\<in>set C. item \<notin> set exc
               \<longrightarrow> (\<exists>b. isPluginRequired T sup = Inr b))"
    by (rule filterItems_returns)
qed

theorem filterItems_defaults_witness:
  "filterItems [(''web.timers'', [''chrome'' \<mapsto> JStr ''1''])] [] [''web.immediate'']
     [(''chrome'', ''55.0.0'')] (Some [''web.timers'', ''web.immediate''])
   = Inr [''web.timers'']
   \<and> isPluginRequired [(''chrome'', ''55.0.0'')] [''chrome'' \<mapsto> JStr ''1''] = Inr False
   \<and> ''web.timers'' \<in> set [''web.timers'']"
proof -
  have E: "filterItems [(''web.timers'', [''chrome'' \<mapsto> JStr ''1''])] [] [''web.immediate'']
             [(''chrome'', ''55.0.0'')] (Some [''web.timers'', ''web.immediate''])
           = Inr [''web.timers'']"
    by code_simp
  have F: "isPluginRequired [(''chrome'', ''55.0.0'')] [''chrome'' \<mapsto> JStr ''1''] = Inr False"
    by code_simp
  have M: "''web.timers'' \<in> set [''web.timers'', ''web.immediate'']"
    "''web.timers'' \<notin> set [''web.immediate'']"
    by simp_all
  from filterItems_defaults
         [of "[(''web.timers'', [''chrome'' \<mapsto> JStr ''1''])]" "[]" "[''web.immediate'']"
             "[(''chrome'', ''55.0.0'')]" "[''web.timers'', ''web.immediate'']"] E M
  have "''web.timers'' \<in> set [''web.timers'']"
    by blast
  with E F show ?thesis
    by blast
qed

text \<open>
  With a default set too, \<open>filterItems\<close> does not return for every target map: the
  catalog loop raises before the defaults are added.
\<close>

theorem filterItems_defaults_counterexample:
  "filterItems [(''es6.promise'', [''chrome'' \<mapsto> JStr ''51''])] [] []
     [(''chrome'', ''latest'')] (Some [''web.timers''])
   = Inl (Error (invalid_version_message ''chrome'' (Some ''latest'')))"
  by code_simp

section \<open>Properties of the top-level resolution\<close>



















end
